theory Spec2Isabelle
  imports Complex_Main
begin

section \<open>JavaScript primitives used by the decider code\<close>

text \<open>
  JavaScript numbers are modelled as exact reals (angles, random draws) and as integers
  (counts, bounds, indices).  The remainder operator \<^verbatim>\<open>a % b\<close> truncates the
  quotient towards zero, so its result carries the sign of the dividend.  It is only
  ever applied with the divisor 360 in the code below.
\<close>

definition js_trunc :: "real \<Rightarrow> int" where
  "js_trunc x = (if 0 \<le> x then \<lfloor>x\<rfloor> else \<lceil>x\<rceil>)"

definition js_rem :: "real \<Rightarrow> real \<Rightarrow> real" where
  "js_rem a b = a - b * of_int (js_trunc (a / b))"


text \<open>
  Reading \<^verbatim>\<open>xs[i]\<close>: an index outside the array yields \<^verbatim>\<open>undefined\<close>,
  modelled as \<open>None\<close>.
\<close>

definition js_index :: "'a list \<Rightarrow> int \<Rightarrow> 'a option" where
  "js_index xs i = (if 0 \<le> i \<and> i < int (length xs) then Some (xs ! nat i) else None)"

text \<open>
  \<^verbatim>\<open>Math.random()\<close> is a stream of draws; the position in the stream is threaded
  through the code that draws.  Every draw lies in the half-open unit interval.
\<close>

type_synonym random_source = "nat \<Rightarrow> real"


section \<open>Data model\<close>

record wheel_option =
  option_id :: string
  label :: string
  color :: string
  weight :: int
  enabled :: bool

record wheel =
  wheel_id :: string
  name :: string
  options :: "wheel_option list"
  updatedAt :: string

record spin_result =
  result_id :: string
  wheelId :: string
  winnerOptionId :: string
  timestamp :: string

record rng_config =
  min_cfg :: int
  max_cfg :: int
  count :: int
  allowDuplicates :: bool
  lastResults :: "int list"

text \<open>The state of the random number screen: the stored configuration of the
  application context, the draft edited in the settings sheet, and the view state.\<close>

record rng_screen =
  rngConfig :: rng_config
  tempConfig :: rng_config
  currentResult :: "int list"
  showSettings :: bool
  hasChanges :: bool

datatype alert =
    InvalidConfiguration
  | SwappedMinMax
  | InvalidCount
  | CountLimited
  | CountExceedsUniqueValues int

datatype save_result = Rejected | Saved rng_config

datatype spin_outcome =
    NoSpin
  | NoOptionsAlert
  | TypeError
  | Spun string spin_result

section \<open>Angle to option index (app/(tabs)/index.js, app/details/[id].js)\<close>

text \<open>
  \<^verbatim>\<open>pickIndex(finalDeg, n, baseOffsetDeg = 0)\<close>.  With \<open>n = 0\<close> the segment width
  is infinite and the JavaScript result is \<^verbatim>\<open>NaN\<close>, modelled as \<open>None\<close>.
\<close>

definition pickIndex :: "real \<Rightarrow> nat \<Rightarrow> real \<Rightarrow> int option" where
  "pickIndex finalDeg n baseOffsetDeg =
     (if n = 0 then None
      else
        let pointerBiasDeg = - 15;
            seg = 360 / real n;
            norm = js_rem (js_rem finalDeg 360 + 360) 360;
            a = js_rem (baseOffsetDeg + pointerBiasDeg + seg / 2 - norm + 360) 360
        in Some \<lfloor>a / seg\<rfloor>)"

text \<open>The final rotation computed by \<^verbatim>\<open>spinWheel\<close> from the current value of the
  rotation animation and two random draws.\<close>

definition finalRotation :: "real \<Rightarrow> real \<Rightarrow> real \<Rightarrow> real" where
  "finalRotation rotationValue rand1 rand2 =
     (let fullRotations = 5 + rand1 * 3;
          randomStopAngle = rand2 * 360;
          currentRotation = js_rem rotationValue 360
      in currentRotation + fullRotations * 360 + randomStopAngle)"

text \<open>
  \<^verbatim>\<open>onSpinEnd\<close>: the index picks the winner among the enabled options.  Reading
  \<^verbatim>\<open>.label\<close> of an \<^verbatim>\<open>undefined\<close> array element throws a \<^verbatim>\<open>TypeError\<close>
  before anything is shown or recorded.
\<close>

definition onSpinEnd ::
  "string \<Rightarrow> wheel_option list \<Rightarrow> string \<Rightarrow> string \<Rightarrow> real \<Rightarrow> spin_outcome" where
  "onSpinEnd currentWheelId enabledOptions nowMs nowIso finalDeg =
     (case pickIndex finalDeg (length enabledOptions) 0 of
        None \<Rightarrow> TypeError
      | Some idx \<Rightarrow>
          (case js_index enabledOptions idx of
             None \<Rightarrow> TypeError
           | Some selectedOption \<Rightarrow>
               Spun (label selectedOption)
                 \<lparr>result_id = nowMs, wheelId = currentWheelId,
                  winnerOptionId = option_id selectedOption, timestamp = nowIso\<rparr>))"

text \<open>\<^verbatim>\<open>spinWheel\<close> of the main screen: nothing happens without a wheel, while a
  spin is running, or when no option is enabled.\<close>

definition spinWheel ::
  "wheel option \<Rightarrow> bool \<Rightarrow> real \<Rightarrow> real \<Rightarrow> real \<Rightarrow> string \<Rightarrow> string \<Rightarrow> spin_outcome" where
  "spinWheel currentWheel isSpinning rotationValue rand1 rand2 nowMs nowIso =
     (case currentWheel of
        None \<Rightarrow> NoSpin
      | Some w \<Rightarrow>
          if isSpinning then NoSpin
          else
            let enabledOptions = filter enabled (options w) in
            if length enabledOptions = 0 then NoSpin
            else onSpinEnd (wheel_id w) enabledOptions nowMs nowIso
                   (finalRotation rotationValue rand1 rand2))"

text \<open>\<^verbatim>\<open>spinWheel\<close> of the wheel detail screen: the same, except that a wheel without
  enabled options raises an alert.\<close>

definition spinWheel_details ::
  "wheel option \<Rightarrow> bool \<Rightarrow> real \<Rightarrow> real \<Rightarrow> real \<Rightarrow> string \<Rightarrow> string \<Rightarrow> spin_outcome" where
  "spinWheel_details wheel isSpinning rotationValue rand1 rand2 nowMs nowIso =
     (case wheel of
        None \<Rightarrow> NoSpin
      | Some w \<Rightarrow>
          if isSpinning then NoSpin
          else
            let enabledOptions = filter enabled (options w) in
            if length enabledOptions = 0 then NoOptionsAlert
            else onSpinEnd (wheel_id w) enabledOptions nowMs nowIso
                   (finalRotation rotationValue rand1 rand2))"


section \<open>Wheel list update (contexts/AppContext.js)\<close>

definition updateWheel ::
  "'a wheel_scheme list \<Rightarrow> 'a wheel_scheme \<Rightarrow> 'a wheel_scheme list" where
  "updateWheel wheels updatedWheel =
     map (\<lambda>wheel. if wheel_id wheel = wheel_id updatedWheel then updatedWheel else wheel) wheels"

text \<open>\<^verbatim>\<open>updateRngConfig\<close> spreads the new configuration over the stored one; every
  caller passes a complete configuration, so each field is taken from the new one.\<close>

definition updateRngConfig :: "rng_config \<Rightarrow> rng_config \<Rightarrow> rng_config" where
  "updateRngConfig stored newConfig =
     \<lparr>min_cfg = min_cfg newConfig, max_cfg = max_cfg newConfig, count = count newConfig,
      allowDuplicates = allowDuplicates newConfig, lastResults = lastResults newConfig\<rparr>"

section \<open>Random number generation (app/create.js)\<close>

text \<open>
  The \<^verbatim>\<open>do ... while\<close> loop that draws one number: \<open>attempts\<close> counts the draws made
  so far for this number, \<open>pos\<close> is the position in the random stream.  The result is
  the number pushed and the stream position after the loop.
\<close>

function draw_number ::
  "random_source \<Rightarrow> rng_config \<Rightarrow> int set \<Rightarrow> nat \<Rightarrow> nat \<Rightarrow> int \<times> nat" where
  "draw_number rnd cfg usedNumbers pos attempts =
     (let randomNum = \<lfloor>rnd pos * of_int (max_cfg cfg - min_cfg cfg + 1)\<rfloor> + min_cfg cfg;
          attempts' = attempts + 1
      in if attempts' > 1000 then (randomNum, pos + 1)
         else if \<not> allowDuplicates cfg \<and> randomNum \<in> usedNumbers
           then draw_number rnd cfg usedNumbers (pos + 1) attempts'
         else (randomNum, pos + 1))"
  by pat_completeness auto
termination
  by (relation "measure (\<lambda>(rnd, cfg, usedNumbers, pos, attempts). 1001 - attempts)") auto

text \<open>The \<^verbatim>\<open>for\<close> loop: \<open>k\<close> is the number of iterations still to run.\<close>

fun generate_loop ::
  "random_source \<Rightarrow> rng_config \<Rightarrow> nat \<Rightarrow> int list \<Rightarrow> int set \<Rightarrow> nat \<Rightarrow> int list \<times> nat" where
  "generate_loop rnd cfg 0 results usedNumbers pos = (results, pos)"
| "generate_loop rnd cfg (Suc k) results usedNumbers pos =
     (case draw_number rnd cfg usedNumbers pos 0 of
        (randomNum, pos') \<Rightarrow>
          generate_loop rnd cfg k (results @ [randomNum]) (insert randomNum usedNumbers) pos')"

text \<open>
  \<^verbatim>\<open>generateNumbers\<close>: the alert raised, if any, the screen state and the stream
  position afterwards.
\<close>

definition generateNumbers ::
  "random_source \<Rightarrow> nat \<Rightarrow> rng_screen \<Rightarrow> alert option \<times> rng_screen \<times> nat" where
  "generateNumbers rnd pos st =
     (let cfg = rngConfig st in
      if count cfg > max_cfg cfg - min_cfg cfg + 1 \<and> \<not> allowDuplicates cfg
      then (Some InvalidConfiguration, st, pos)
      else
        case generate_loop rnd cfg (nat (count cfg)) [] {} pos of
          (results, pos') \<Rightarrow>
            (None,
             st\<lparr>currentResult := results,
                rngConfig := updateRngConfig cfg (cfg\<lparr>lastResults := results\<rparr>)\<rparr>,
             pos'))"

text \<open>
  \<^verbatim>\<open>validateAndSaveSettings\<close>: the alerts raised in order, whether the draft was
  saved (and as what), and the screen state afterwards.
\<close>

definition validateAndSaveSettings :: "rng_screen \<Rightarrow> alert list \<times> save_result \<times> rng_screen" where
  "validateAndSaveSettings st =
     (let finalConfig = tempConfig st;
          swapped = (min_cfg finalConfig > max_cfg finalConfig);
          finalConfig1 =
            (if swapped
             then finalConfig\<lparr>min_cfg := max_cfg finalConfig, max_cfg := min_cfg finalConfig\<rparr>
             else finalConfig);
          alerts1 = (if swapped then [SwappedMinMax] else [])
      in if count finalConfig1 \<le> 0 then (alerts1 @ [InvalidCount], Rejected, st)
         else
           let limited = (count finalConfig1 > 20);
               finalConfig2 = (if limited then finalConfig1\<lparr>count := 20\<rparr> else finalConfig1);
               alerts2 = alerts1 @ (if limited then [CountLimited] else []);
               maxUnique = max_cfg finalConfig2 - min_cfg finalConfig2 + 1
           in if \<not> allowDuplicates finalConfig2 \<and> count finalConfig2 > maxUnique
              then (alerts2 @ [CountExceedsUniqueValues maxUnique], Rejected, st)
              else (alerts2,
                    Saved finalConfig2,
                    st\<lparr>rngConfig := updateRngConfig (rngConfig st) finalConfig2,
                       showSettings := False, hasChanges := False\<rparr>))"

text \<open>The invariant of a stored configuration.\<close>

definition rng_invariant :: "rng_config \<Rightarrow> bool" where
  "rng_invariant cfg =
     (min_cfg cfg \<le> max_cfg cfg \<and> 0 < count cfg \<and> count cfg \<le> 20 \<and>
      (allowDuplicates cfg \<or> count cfg \<le> max_cfg cfg - min_cfg cfg + 1))"

text \<open>The floored remainder modulo 360, used to describe the normalised angle.\<close>

definition floor_mod360 :: "real \<Rightarrow> real" where
  "floor_mod360 x = x - 360 * of_int \<lfloor>x / 360\<rfloor>"

section \<open>Concrete inputs\<close>

text \<open>Two random streams: one that returns the same draw for ever, and one that cycles
  through \<open>0\<close>, \<open>1 / m\<close>, ..., \<open>(m - 1) / m\<close>.\<close>

definition constant_draws :: "real \<Rightarrow> random_source" where
  "constant_draws r i = r"


text \<open>The random number screen as it is mounted: the draft and the shown result are
  taken from the stored configuration, and the settings sheet is closed.\<close>

definition initial_screen :: "rng_config \<Rightarrow> rng_screen" where
  "initial_screen cfg =
     \<lparr>rngConfig = cfg, tempConfig = cfg, currentResult = lastResults cfg,
      showSettings = False, hasChanges = False\<rparr>"



section \<open>The remainder modulo 360\<close>

lemma js_rem_small: "0 \<le> y \<Longrightarrow> y < 360 \<Longrightarrow> js_rem y 360 = y"
proof -
  assume a: "0 \<le> y" "y < 360"
  then have "\<lfloor>y / 360\<rfloor> = 0" by (simp add: floor_eq_iff)
  with a show ?thesis by (simp add: js_rem_def js_trunc_def)
qed

lemma js_rem_second: "360 \<le> y \<Longrightarrow> y < 720 \<Longrightarrow> js_rem y 360 = y - 360"
proof -
  assume a: "360 \<le> y" "y < 720"
  then have "\<lfloor>y / 360\<rfloor> = 1" by (simp add: floor_eq_iff)
  with a show ?thesis by (simp add: js_rem_def js_trunc_def)
qed

lemma floor_mod360_range: "0 \<le> floor_mod360 x \<and> floor_mod360 x < 360"
proof -
  have "of_int \<lfloor>x / 360\<rfloor> \<le> x / 360" "x / 360 < of_int \<lfloor>x / 360\<rfloor> + 1"
    by linarith+
  then show ?thesis unfolding floor_mod360_def by (simp add: field_simps)
qed

lemma js_rem_360_cases:
  "js_rem x 360 =
     (if 0 \<le> x \<or> x / 360 = of_int \<lfloor>x / 360\<rfloor> then floor_mod360 x
      else floor_mod360 x - 360)"
  by (simp add: js_rem_def js_trunc_def floor_mod360_def ceiling_altdef algebra_simps)

text \<open>The double remainder of \<open>pickIndex\<close> is the floored remainder, for either sign
  of the angle.\<close>

lemma norm_floor_mod: "js_rem (js_rem x 360 + 360) 360 = floor_mod360 x"
proof -
  have r: "0 \<le> floor_mod360 x" "floor_mod360 x < 360" using floor_mod360_range by auto
  show ?thesis
  proof (cases "0 \<le> x \<or> x / 360 = of_int \<lfloor>x / 360\<rfloor>")
    case True
    then have "js_rem x 360 = floor_mod360 x" by (simp add: js_rem_360_cases)
    with r show ?thesis by (simp add: js_rem_second)
  next
    case False
    then have e: "js_rem x 360 = floor_mod360 x - 360" by (simp add: js_rem_360_cases)
    from False have "floor_mod360 x \<noteq> 0" by (auto simp: floor_mod360_def)
    with r e show ?thesis by (simp add: js_rem_small)
  qed
qed


text \<open>With at most twelve sectors, half a sector is at least the pointer bias, the
  offset stays positive, and the index is in range.\<close>

lemma pickIndex_upto_12:
  assumes "1 \<le> n" "n \<le> 12"
  shows "\<exists>i. pickIndex x n 0 = Some i \<and> 0 \<le> i \<and> i < int n"
proof -
  define seg where "seg = 360 / real n"
  define nrm where "nrm = floor_mod360 x"
  define t where "t = - 15 + seg / 2 - nrm + 360"
  have n: "0 < real n" "real n \<le> 12" using assms by auto
  have seg_pos: "0 < seg" using n by (simp add: seg_def)
  have seg_lo: "30 \<le> seg" using n by (simp add: seg_def field_simps)
  have seg_hi: "seg \<le> 360" using assms by (simp add: seg_def field_simps)
  have r: "0 \<le> nrm" "nrm < 360" using floor_mod360_range by (auto simp: nrm_def)
  have t: "0 < t" "t < 720" using seg_lo seg_hi r by (auto simp: t_def)
  define a where "a = js_rem t 360"
  have a: "0 \<le> a \<and> a < 360"
  proof (cases "t < 360")
    case True
    with t show ?thesis by (simp add: a_def js_rem_small)
  next
    case False
    with t show ?thesis by (simp add: a_def js_rem_second)
  qed
  have q: "0 \<le> a / seg" using a seg_pos by simp
  have "a / seg < 360 / seg" using a seg_pos by (simp add: divide_strict_right_mono)
  also have "360 / seg = real n" using n by (simp add: seg_def)
  finally have q2: "a / seg < real n" .
  have "0 \<le> \<lfloor>a / seg\<rfloor>" using q by simp
  moreover have "\<lfloor>a / seg\<rfloor> < int n" using q2 by (simp add: floor_less_iff)
  moreover have "pickIndex x n 0 = Some \<lfloor>a / seg\<rfloor>"
    using assms by (simp add: pickIndex_def norm_floor_mod a_def t_def seg_def nrm_def)
  ultimately show ?thesis by blast
qed

section \<open>Selecting among the enabled options\<close>

lemma js_index_Some: "js_index xs i = Some x \<Longrightarrow> x \<in> set xs"
  by (auto simp: js_index_def split: if_splits)

lemma onSpinEnd_Spun:
  "onSpinEnd wid enabledOptions nowMs nowIso deg = Spun lbl res \<Longrightarrow>
   \<exists>opt\<in>set enabledOptions. lbl = label opt \<and> winnerOptionId res = option_id opt"
  by (auto simp: onSpinEnd_def split: option.splits dest: js_index_Some)


lemma spinWheel_Spun:
  "spinWheel cw sp rot r1 r2 nowMs nowIso = Spun lbl res \<Longrightarrow>
   \<exists>w opt. cw = Some w \<and> opt \<in> set (options w) \<and> enabled opt \<and>
     lbl = label opt \<and> winnerOptionId res = option_id opt"
  by (auto simp: spinWheel_def Let_def split: option.splits if_splits dest!: onSpinEnd_Spun)

lemma spinWheel_details_Spun:
  "spinWheel_details cw sp rot r1 r2 nowMs nowIso = Spun lbl res \<Longrightarrow>
   \<exists>w opt. cw = Some w \<and> opt \<in> set (options w) \<and> enabled opt \<and>
     lbl = label opt \<and> winnerOptionId res = option_id opt"
  by (auto simp: spinWheel_details_def Let_def split: option.splits if_splits dest!: onSpinEnd_Spun)

lemma onSpinEnd_two:
  "onSpinEnd wid [a, b] nowMs nowIso deg =
     Spun (label a) \<lparr>result_id = nowMs, wheelId = wid, winnerOptionId = option_id a, timestamp = nowIso\<rparr> \<or>
   onSpinEnd wid [a, b] nowMs nowIso deg =
     Spun (label b) \<lparr>result_id = nowMs, wheelId = wid, winnerOptionId = option_id b, timestamp = nowIso\<rparr>"
proof -
  from pickIndex_upto_12[of "Suc (Suc 0)" deg] obtain i where
    i: "pickIndex deg (Suc (Suc 0)) 0 = Some i" "0 \<le> i" "i < 2" by auto
  then have "i = 0 \<or> i = 1" by auto
  with i show ?thesis by (auto simp: onSpinEnd_def js_index_def)
qed


lemma finalRotation_example: "finalRotation 0 0 (1 / 2) = 1980"
  by (simp add: finalRotation_def js_rem_def js_trunc_def)

lemma pickIndex_example: "pickIndex 1980 (Suc (Suc 0)) 0 = Some 1"
  by (simp add: pickIndex_def js_rem_def js_trunc_def)




section \<open>The retry loop and the generation loop\<close>

text \<open>The defining equation of the retry loop is unfolded by hand, one iteration at a
  time.\<close>

lemmas draw_number_unfold = draw_number.simps
declare draw_number.simps [simp del]

lemma draw_number_pos:
  "attempts \<le> 1000 \<Longrightarrow>
   pos < snd (draw_number rnd cfg usedNumbers pos attempts) \<and>
   snd (draw_number rnd cfg usedNumbers pos attempts) + attempts \<le> pos + 1001"
proof (induction rnd cfg usedNumbers pos attempts rule: draw_number.induct)
  case (1 rnd cfg usedNumbers pos attempts)
  show ?case
  proof (cases "attempts + 1 \<le> 1000 \<and> \<not> allowDuplicates cfg \<and>
      \<lfloor>rnd pos * of_int (max_cfg cfg - min_cfg cfg + 1)\<rfloor> + min_cfg cfg \<in> usedNumbers")
    case True
    then have e: "draw_number rnd cfg usedNumbers pos attempts =
        draw_number rnd cfg usedNumbers (pos + 1) (attempts + 1)"
      by (subst draw_number_unfold) (simp add: Let_def)
    from True have "pos + 1 < snd (draw_number rnd cfg usedNumbers (pos + 1) (attempts + 1)) \<and>
      snd (draw_number rnd cfg usedNumbers (pos + 1) (attempts + 1)) + (attempts + 1) \<le> pos + 1 + 1001"
      by (intro "1.IH"[OF refl refl]) auto
    with e show ?thesis by simp
  next
    case False
    then have "draw_number rnd cfg usedNumbers pos attempts =
        (\<lfloor>rnd pos * of_int (max_cfg cfg - min_cfg cfg + 1)\<rfloor> + min_cfg cfg, pos + 1)"
      by (subst draw_number_unfold) (auto simp add: Let_def)
    with "1.prems" show ?thesis by simp
  qed
qed




lemma generate_loop_length:
  "length (fst (generate_loop rnd cfg k results usedNumbers pos)) = length results + k"
  by (induction k arbitrary: results usedNumbers pos) (auto simp: case_prod_beta)

lemma generate_loop_pos:
  "pos \<le> snd (generate_loop rnd cfg k results usedNumbers pos) \<and>
   snd (generate_loop rnd cfg k results usedNumbers pos) \<le> pos + 1001 * k"
proof (induction k arbitrary: results usedNumbers pos)
  case 0
  show ?case by simp
next
  case (Suc k)
  define d where "d = draw_number rnd cfg usedNumbers pos 0"
  have p: "pos < snd d \<and> snd d \<le> pos + 1001" using draw_number_pos[of 0 pos rnd cfg usedNumbers]
    by (simp add: d_def)
  have e: "generate_loop rnd cfg (Suc k) results usedNumbers pos =
    generate_loop rnd cfg k (results @ [fst d]) (insert (fst d) usedNumbers) (snd d)"
    by (simp add: d_def case_prod_beta)
  from Suc.IH[where results = "results @ [fst d]" and usedNumbers = "insert (fst d) usedNumbers"
      and pos = "snd d"] p e
  show ?case by simp
qed


lemma draw_number_constant:
  "fst (draw_number (constant_draws r) cfg usedNumbers pos attempts) =
     \<lfloor>r * of_int (max_cfg cfg - min_cfg cfg + 1)\<rfloor> + min_cfg cfg"
proof (induction "constant_draws r" cfg usedNumbers pos attempts rule: draw_number.induct)
  case (1 cfg usedNumbers pos attempts)
  show ?case
    apply (subst draw_number_unfold)
    using 1 by (simp add: Let_def constant_draws_def)
qed

lemma draw_number_constant_cap:
  "attempts \<le> 1000 \<Longrightarrow> \<not> allowDuplicates cfg \<Longrightarrow>
   \<lfloor>r * of_int (max_cfg cfg - min_cfg cfg + 1)\<rfloor> + min_cfg cfg \<in> usedNumbers \<Longrightarrow>
   snd (draw_number (constant_draws r) cfg usedNumbers pos attempts) = pos + (1001 - attempts)"
proof (induction "constant_draws r" cfg usedNumbers pos attempts rule: draw_number.induct)
  case (1 cfg usedNumbers pos attempts)
  show ?case
  proof (cases "attempts + 1 \<le> 1000")
    case True
    with "1.prems" have e: "draw_number (constant_draws r) cfg usedNumbers pos attempts =
        draw_number (constant_draws r) cfg usedNumbers (pos + 1) (attempts + 1)"
      by (subst draw_number_unfold) (simp add: Let_def constant_draws_def)
    have "snd (draw_number (constant_draws r) cfg usedNumbers (pos + 1) (attempts + 1)) =
      pos + 1 + (1001 - (attempts + 1))"
      using True "1.prems" by (intro "1.hyps"[OF refl refl]) (auto simp: constant_draws_def)
    with e True show ?thesis by simp
  next
    case False
    then have "draw_number (constant_draws r) cfg usedNumbers pos attempts =
        (\<lfloor>r * of_int (max_cfg cfg - min_cfg cfg + 1)\<rfloor> + min_cfg cfg, pos + 1)"
      by (subst draw_number_unfold) (auto simp add: Let_def constant_draws_def)
    with False "1.prems"(1) show ?thesis by simp
  qed
qed








section \<open>Properties\<close>

text \<open>
  C1, at a concrete input: sixteen sectors and a final rotation of 2159 degrees (five
  full turns and 359 degrees).  The mapper returns \<open>- 1\<close>, which is not an index
  in the range from 0 to 15.
\<close>

theorem pickIndex_negative_at_2159_16: "pickIndex 2159 16 0 = Some (- 1)"
  by (simp add: pickIndex_def js_rem_def js_trunc_def)








text \<open>
  C4: whenever a spin, on the main screen or on the detail screen, shows a result and
  records a winner, that winner is one of the wheel's options with enabled = true, and
  the shown label and the recorded id are its label and id.  For the options a, b
  (enabled) and c (disabled), every spin of an idle wheel, on either screen, returns
  a or b, whatever the rotation and the random draws.
\<close>

theorem spin_winner_enabled:
  "(spinWheel cw sp rot r1 r2 nowMs nowIso = Spun lbl res \<or>
    spinWheel_details cw sp rot r1 r2 nowMs nowIso = Spun lbl res \<longrightarrow>
      (\<exists>w opt. cw = Some w \<and> opt \<in> set (options w) \<and> enabled opt \<and>
         lbl = label opt \<and> winnerOptionId res = option_id opt)) \<and>
   (\<exists>opt\<in>{\<lparr>option_id = ''a'', label = la, color = ca, weight = 50, enabled = True\<rparr>,
             \<lparr>option_id = ''b'', label = lb, color = cb, weight = 50, enabled = True\<rparr>}.
      spinWheel
        (Some \<lparr>wheel_id = wid, name = nm,
           options =
             [\<lparr>option_id = ''a'', label = la, color = ca, weight = 50, enabled = True\<rparr>,
              \<lparr>option_id = ''b'', label = lb, color = cb, weight = 50, enabled = True\<rparr>,
              \<lparr>option_id = ''c'', label = lc, color = cc, weight = 50, enabled = False\<rparr>],
           updatedAt = u\<rparr>)
        False rot r1 r2 nowMs nowIso =
      Spun (label opt)
        \<lparr>result_id = nowMs, wheelId = wid, winnerOptionId = option_id opt, timestamp = nowIso\<rparr>) \<and>
   (\<exists>opt\<in>{\<lparr>option_id = ''a'', label = la, color = ca, weight = 50, enabled = True\<rparr>,
             \<lparr>option_id = ''b'', label = lb, color = cb, weight = 50, enabled = True\<rparr>}.
      spinWheel_details
        (Some \<lparr>wheel_id = wid, name = nm,
           options =
             [\<lparr>option_id = ''a'', label = la, color = ca, weight = 50, enabled = True\<rparr>,
              \<lparr>option_id = ''b'', label = lb, color = cb, weight = 50, enabled = True\<rparr>,
              \<lparr>option_id = ''c'', label = lc, color = cc, weight = 50, enabled = False\<rparr>],
           updatedAt = u\<rparr>)
        False rot r1 r2 nowMs nowIso =
      Spun (label opt)
        \<lparr>result_id = nowMs, wheelId = wid, winnerOptionId = option_id opt, timestamp = nowIso\<rparr>)"
proof (intro conjI impI)
  assume "spinWheel cw sp rot r1 r2 nowMs nowIso = Spun lbl res \<or>
    spinWheel_details cw sp rot r1 r2 nowMs nowIso = Spun lbl res"
  then show "\<exists>w opt. cw = Some w \<and> opt \<in> set (options w) \<and> enabled opt \<and>
         lbl = label opt \<and> winnerOptionId res = option_id opt"
    using spinWheel_Spun spinWheel_details_Spun by blast
next
  let ?a = "\<lparr>option_id = ''a'', label = la, color = ca, weight = 50, enabled = True\<rparr>"
  let ?b = "\<lparr>option_id = ''b'', label = lb, color = cb, weight = 50, enabled = True\<rparr>"
  let ?w = "\<lparr>wheel_id = wid, name = nm,
           options =
             [?a, ?b,
              \<lparr>option_id = ''c'', label = lc, color = cc, weight = 50, enabled = False\<rparr>],
           updatedAt = u\<rparr>"
  note two = onSpinEnd_two[of wid ?a ?b nowMs nowIso "finalRotation rot r1 r2"]
  from two show "\<exists>opt\<in>{?a, ?b}.
      spinWheel (Some ?w) False rot r1 r2 nowMs nowIso =
      Spun (label opt)
        \<lparr>result_id = nowMs, wheelId = wid, winnerOptionId = option_id opt, timestamp = nowIso\<rparr>"
    by (auto simp: spinWheel_def)
  from two show "\<exists>opt\<in>{?a, ?b}.
      spinWheel_details (Some ?w) False rot r1 r2 nowMs nowIso =
      Spun (label opt)
        \<lparr>result_id = nowMs, wheelId = wid, winnerOptionId = option_id opt, timestamp = nowIso\<rparr>"
    by (auto simp: spinWheel_details_def)
qed

text \<open>A spin of the wheel Pizza, Sushi, Tacos (disabled) that stops on Sushi.\<close>

theorem spin_winner_enabled_witness:
  "spinWheel
     (Some \<lparr>wheel_id = ''w'', name = ''Lunch'',
        options =
          [\<lparr>option_id = ''a'', label = ''Pizza'', color = ''red'', weight = 50, enabled = True\<rparr>,
           \<lparr>option_id = ''b'', label = ''Sushi'', color = ''blue'', weight = 50, enabled = True\<rparr>,
           \<lparr>option_id = ''c'', label = ''Tacos'', color = ''green'', weight = 50, enabled = False\<rparr>],
        updatedAt = ''t0''\<rparr>)
     False 0 0 (1 / 2) ''1'' ''t1'' =
   Spun ''Sushi'' \<lparr>result_id = ''1'', wheelId = ''w'', winnerOptionId = ''b'', timestamp = ''t1''\<rparr> \<and>
   (\<exists>w opt. Some \<lparr>wheel_id = ''w'', name = ''Lunch'',
        options =
          [\<lparr>option_id = ''a'', label = ''Pizza'', color = ''red'', weight = 50, enabled = True\<rparr>,
           \<lparr>option_id = ''b'', label = ''Sushi'', color = ''blue'', weight = 50, enabled = True\<rparr>,
           \<lparr>option_id = ''c'', label = ''Tacos'', color = ''green'', weight = 50, enabled = False\<rparr>],
        updatedAt = ''t0''\<rparr> = Some w \<and> opt \<in> set (options w) \<and> enabled opt \<and>
      ''Sushi'' = label opt \<and> ''b'' = option_id opt)"
proof -
  let ?w = "\<lparr>wheel_id = ''w'', name = ''Lunch'',
        options =
          [\<lparr>option_id = ''a'', label = ''Pizza'', color = ''red'', weight = 50, enabled = True\<rparr>,
           \<lparr>option_id = ''b'', label = ''Sushi'', color = ''blue'', weight = 50, enabled = True\<rparr>,
           \<lparr>option_id = ''c'', label = ''Tacos'', color = ''green'', weight = 50, enabled = False\<rparr>],
        updatedAt = ''t0''\<rparr>"
  let ?r = "\<lparr>result_id = ''1'', wheelId = ''w'', winnerOptionId = ''b'', timestamp = ''t1''\<rparr>"
  have e: "spinWheel (Some ?w) False 0 0 (1 / 2) ''1'' ''t1'' = Spun ''Sushi'' ?r"
    by (simp add: spinWheel_def onSpinEnd_def finalRotation_example pickIndex_example js_index_def)
  note t = spin_winner_enabled[of "Some ?w" False 0 0 "1 / 2" "''1''" "''t1''" "''Sushi''" ?r,
      THEN conjunct1, THEN mp, OF disjI1, OF e]
  have w: "winnerOptionId ?r = ''b''" by simp
  from t show ?thesis unfolding w by (intro conjI e)
qed

text \<open>
  C5: when duplicates are disallowed and the count exceeds the number of distinct values
  of the range, generation raises the validation alert and nothing else happens: no
  draw is made (the stream position is unchanged) and the screen state, with the
  stored last results and the shown result, is unchanged.
\<close>

theorem generateNumbers_rejects_excess_count:
  assumes "\<not> allowDuplicates (rngConfig st)"
    and "count (rngConfig st) > max_cfg (rngConfig st) - min_cfg (rngConfig st) + 1"
  shows "generateNumbers rnd pos st = (Some InvalidConfiguration, st, pos)"
  using assms by (simp add: generateNumbers_def Let_def)

text \<open>Range 1 to 3, count 4, duplicates disallowed: the stored results stay as they
  were.\<close>

theorem generateNumbers_rejects_excess_count_witness:
  "generateNumbers (constant_draws 0) 0
     (initial_screen \<lparr>min_cfg = 1, max_cfg = 3, count = 4, allowDuplicates = False,
        lastResults = [2]\<rparr>) =
   (Some InvalidConfiguration,
    initial_screen \<lparr>min_cfg = 1, max_cfg = 3, count = 4, allowDuplicates = False,
        lastResults = [2]\<rparr>, 0) \<and>
   lastResults (rngConfig (fst (snd (generateNumbers (constant_draws 0) 0
     (initial_screen \<lparr>min_cfg = 1, max_cfg = 3, count = 4, allowDuplicates = False,
        lastResults = [2]\<rparr>))))) = [2]"
  using generateNumbers_rejects_excess_count[of
      "initial_screen \<lparr>min_cfg = 1, max_cfg = 3, count = 4, allowDuplicates = False,
        lastResults = [2]\<rparr>" "constant_draws 0" 0]
  by (simp add: initial_screen_def)

text \<open>
  C6: the retry loop and the generation loop are total functions.  For every
  configuration, every set of used numbers and every random stream, one number takes
  at least one and at most 1001 draws (the first draw and at most 1000 re-draws); the
  generation loop appends exactly one value per iteration and takes at most 1001 draws
  per number.  When duplicates are disallowed and the stream repeats for ever a draw
  whose value is already used, the loop stops after exactly 1001 draws and returns that
  value, a duplicate, to be appended.
\<close>

theorem generation_terminates_within_cap:
  "pos < snd (draw_number rnd cfg usedNumbers pos 0) \<and>
   snd (draw_number rnd cfg usedNumbers pos 0) \<le> pos + 1001 \<and>
   length (fst (generate_loop rnd cfg k results usedNumbers pos)) = length results + k \<and>
   snd (generate_loop rnd cfg k results usedNumbers pos) \<le> pos + 1001 * k \<and>
   draw_number (constant_draws r) (cfg\<lparr>allowDuplicates := False\<rparr>)
       {\<lfloor>r * of_int (max_cfg cfg - min_cfg cfg + 1)\<rfloor> + min_cfg cfg} pos 0 =
     (\<lfloor>r * of_int (max_cfg cfg - min_cfg cfg + 1)\<rfloor> + min_cfg cfg, pos + 1001)"
proof -
  have "draw_number (constant_draws r) (cfg\<lparr>allowDuplicates := False\<rparr>)
       {\<lfloor>r * of_int (max_cfg cfg - min_cfg cfg + 1)\<rfloor> + min_cfg cfg} pos 0 =
     (\<lfloor>r * of_int (max_cfg cfg - min_cfg cfg + 1)\<rfloor> + min_cfg cfg, pos + 1001)"
    using draw_number_constant[of r "cfg\<lparr>allowDuplicates := False\<rparr>"
        "{\<lfloor>r * of_int (max_cfg cfg - min_cfg cfg + 1)\<rfloor> + min_cfg cfg}" pos 0]
      draw_number_constant_cap[of 0 "cfg\<lparr>allowDuplicates := False\<rparr>" r
        "{\<lfloor>r * of_int (max_cfg cfg - min_cfg cfg + 1)\<rfloor> + min_cfg cfg}" pos]
    by (simp add: prod_eq_iff)
  then show ?thesis
    using draw_number_pos[of 0 pos rnd cfg usedNumbers]
      generate_loop_pos[of pos rnd cfg k results usedNumbers]
    by (simp add: generate_loop_length)
qed



text \<open>
  C8: a configuration that the settings validation saves satisfies the invariant
  (min \<le> max, 0 < count \<le> 20, and count within the range when duplicates are
  disallowed), it is what the context stores, and it is the draft with min and max
  swapped if reversed and the count limited to 20.  A draft whose count is not positive,
  or whose limited count exceeds the range while duplicates are disallowed, is rejected
  and the state is unchanged.
\<close>

theorem validateAndSaveSettings_invariant:
  "(validateAndSaveSettings st = (alerts, Saved cfg, st') \<longrightarrow>
      rng_invariant cfg \<and> rngConfig st' = cfg \<and>
      min_cfg cfg = min (min_cfg (tempConfig st)) (max_cfg (tempConfig st)) \<and>
      max_cfg cfg = max (min_cfg (tempConfig st)) (max_cfg (tempConfig st)) \<and>
      count cfg = min 20 (count (tempConfig st)) \<and>
      allowDuplicates cfg = allowDuplicates (tempConfig st)) \<and>
   (count (tempConfig st) \<le> 0 \<or>
    (\<not> allowDuplicates (tempConfig st) \<and>
     min 20 (count (tempConfig st)) > \<bar>max_cfg (tempConfig st) - min_cfg (tempConfig st)\<bar> + 1) \<longrightarrow>
      fst (snd (validateAndSaveSettings st)) = Rejected \<and>
      snd (snd (validateAndSaveSettings st)) = st)"
  by (auto simp: validateAndSaveSettings_def Let_def rng_invariant_def updateRngConfig_def
      split: if_splits)

text \<open>A reversed range with count 25 is saved as 1 to 10 with count 20; the same
  count on the range 1 to 3 without duplicates is rejected.\<close>

theorem validateAndSaveSettings_invariant_witness:
  "validateAndSaveSettings
     \<lparr>rngConfig = \<lparr>min_cfg = 1, max_cfg = 100, count = 1, allowDuplicates = True, lastResults = []\<rparr>,
      tempConfig = \<lparr>min_cfg = 10, max_cfg = 1, count = 25, allowDuplicates = True, lastResults = []\<rparr>,
      currentResult = [], showSettings = True, hasChanges = True\<rparr> =
   ([SwappedMinMax, CountLimited],
    Saved \<lparr>min_cfg = 1, max_cfg = 10, count = 20, allowDuplicates = True, lastResults = []\<rparr>,
    \<lparr>rngConfig = \<lparr>min_cfg = 1, max_cfg = 10, count = 20, allowDuplicates = True, lastResults = []\<rparr>,
      tempConfig = \<lparr>min_cfg = 10, max_cfg = 1, count = 25, allowDuplicates = True, lastResults = []\<rparr>,
      currentResult = [], showSettings = False, hasChanges = False\<rparr>) \<and>
   rng_invariant \<lparr>min_cfg = 1, max_cfg = 10, count = 20, allowDuplicates = True, lastResults = []\<rparr> \<and>
   fst (snd (validateAndSaveSettings
     \<lparr>rngConfig = \<lparr>min_cfg = 1, max_cfg = 100, count = 1, allowDuplicates = True, lastResults = []\<rparr>,
      tempConfig = \<lparr>min_cfg = 3, max_cfg = 1, count = 25, allowDuplicates = False, lastResults = []\<rparr>,
      currentResult = [], showSettings = True, hasChanges = True\<rparr>)) = Rejected"
proof -
  let ?s1 = "\<lparr>rngConfig = \<lparr>min_cfg = 1, max_cfg = 100, count = 1, allowDuplicates = True, lastResults = []\<rparr>,
      tempConfig = \<lparr>min_cfg = 10, max_cfg = 1, count = 25, allowDuplicates = True, lastResults = []\<rparr>,
      currentResult = [], showSettings = True, hasChanges = True\<rparr>"
  let ?s2 = "\<lparr>rngConfig = \<lparr>min_cfg = 1, max_cfg = 100, count = 1, allowDuplicates = True, lastResults = []\<rparr>,
      tempConfig = \<lparr>min_cfg = 3, max_cfg = 1, count = 25, allowDuplicates = False, lastResults = []\<rparr>,
      currentResult = [], showSettings = True, hasChanges = True\<rparr>"
  let ?c = "\<lparr>min_cfg = 1, max_cfg = 10, count = 20, allowDuplicates = True, lastResults = []\<rparr>"
  have e: "validateAndSaveSettings ?s1 =
    ([SwappedMinMax, CountLimited], Saved ?c, ?s1\<lparr>rngConfig := ?c, showSettings := False, hasChanges := False\<rparr>)"
    by (simp add: validateAndSaveSettings_def Let_def updateRngConfig_def)
  from validateAndSaveSettings_invariant[of ?s1 "[SwappedMinMax, CountLimited]" ?c
      "?s1\<lparr>rngConfig := ?c, showSettings := False, hasChanges := False\<rparr>"] e
  have "rng_invariant ?c" by simp
  moreover from validateAndSaveSettings_invariant[of ?s2] have "fst (snd (validateAndSaveSettings ?s2)) = Rejected"
    by simp
  ultimately show ?thesis using e by simp
qed


text \<open>
  C10: updating a wheel keeps the length of the wheel list and the order of the ids;
  every entry whose id differs from the updated wheel's id is unchanged, and an entry
  with that id is replaced by the updated wheel.
\<close>

theorem updateWheel_frame:
  "length (updateWheel wheels updatedWheel) = length wheels \<and>
   map wheel_id (updateWheel wheels updatedWheel) = map wheel_id wheels \<and>
   (\<forall>i<length wheels.
      updateWheel wheels updatedWheel ! i =
        (if wheel_id (wheels ! i) = wheel_id updatedWheel then updatedWheel else wheels ! i))"
  by (simp add: updateWheel_def)

text \<open>Three wheels, the second one updated.\<close>

theorem updateWheel_frame_witness:
  "updateWheel
     [\<lparr>wheel_id = ''w1'', name = ''Eat'', options = [], updatedAt = ''t0''\<rparr>,
      \<lparr>wheel_id = ''w2'', name = ''Dare'', options = [], updatedAt = ''t0''\<rparr>,
      \<lparr>wheel_id = ''w3'', name = ''Game'', options = [], updatedAt = ''t0''\<rparr>]
     \<lparr>wheel_id = ''w2'', name = ''Dare'', options = [], updatedAt = ''t1''\<rparr> ! 1 =
     \<lparr>wheel_id = ''w2'', name = ''Dare'', options = [], updatedAt = ''t1''\<rparr> \<and>
   updateWheel
     [\<lparr>wheel_id = ''w1'', name = ''Eat'', options = [], updatedAt = ''t0''\<rparr>,
      \<lparr>wheel_id = ''w2'', name = ''Dare'', options = [], updatedAt = ''t0''\<rparr>,
      \<lparr>wheel_id = ''w3'', name = ''Game'', options = [], updatedAt = ''t0''\<rparr>]
     \<lparr>wheel_id = ''w2'', name = ''Dare'', options = [], updatedAt = ''t1''\<rparr> ! 2 =
     \<lparr>wheel_id = ''w3'', name = ''Game'', options = [], updatedAt = ''t0''\<rparr>"
proof -
  let ?ws = "[\<lparr>wheel_id = ''w1'', name = ''Eat'', options = [], updatedAt = ''t0''\<rparr>,
      \<lparr>wheel_id = ''w2'', name = ''Dare'', options = [], updatedAt = ''t0''\<rparr>,
      \<lparr>wheel_id = ''w3'', name = ''Game'', options = [], updatedAt = ''t0''\<rparr>]"
  let ?u = "\<lparr>wheel_id = ''w2'', name = ''Dare'', options = [], updatedAt = ''t1''\<rparr>"
  from updateWheel_frame[of ?ws ?u]
  have a: "\<forall>i<length ?ws. updateWheel ?ws ?u ! i =
      (if wheel_id (?ws ! i) = wheel_id ?u then ?u else ?ws ! i)"
    by (elim conjE)
  from a[rule_format, of 1] a[rule_format, of 2] show ?thesis by simp
qed

end
